theory Spec2Isabelle
  imports Main
begin

section \<open>Protocol types\<close>

text \<open>
  The shapes of \<^verbatim>\<open>pygls.types\<close> that the handlers of
  \<^verbatim>\<open>jedi_language_server/server.py\<close> build or read. Field names carry a
  prefix where two shapes share a name (\<^verbatim>\<open>uri\<close>, \<^verbatim>\<open>range\<close>,
  \<^verbatim>\<open>version\<close>, \<^verbatim>\<open>text\<close>).
\<close>

record Position =
  line :: nat
  character :: nat

record Range =
  range_start :: Position
  range_end :: Position

record Location =
  loc_uri :: string
  loc_range :: Range

record TextEdit =
  edit_range :: Range
  new_text :: string

text \<open>
  \<^verbatim>\<open>WorkspaceEdit.changes\<close> is a Python dict. A dict keeps its keys in insertion order and
  that order is what the client receives, so it is an association list here.
\<close>

record WorkspaceEdit =
  changes :: "(string \<times> TextEdit list) list"

record CompletionItem =
  label :: string
  kind :: nat
  detail :: string
  documentation :: string
  insert_text :: string

record CompletionList =
  is_incomplete :: bool
  items :: "CompletionItem list"

record Hover =
  contents :: string

record TextDocumentIdentifier =
  id_uri :: string

record TextDocumentPositionParams =
  textDocument :: TextDocumentIdentifier
  position :: Position

record RenameParams = TextDocumentPositionParams +
  newName :: string

datatype TextDocumentSyncKind = NONE | FULL | INCREMENTAL

section \<open>Errors\<close>

text \<open>
  A raised exception is a value. \<open>KeyError\<close> and \<open>IndexError\<close> are Python's own; the other
  five are the taxonomy of the specification.
\<close>

datatype error =
    KeyError
  | IndexError
  | UnknownDocument
  | DuplicateDocument
  | UnsupportedSyncMode
  | PositionOutOfRange
  | AnalysisUnavailable

text \<open>Python's \<^verbatim>\<open>xs[i]\<close> for a non-negative index: out of range raises.\<close>

definition py_index :: "'a list \<Rightarrow> nat \<Rightarrow> error + 'a" where
  "py_index xs i = (if i < length xs then Inr (xs ! i) else Inl IndexError)"

section \<open>The analysis engine as the handlers see it\<close>

text \<open>
  A jedi completion and a jedi definition, with the attributes the handlers read
  (\<^verbatim>\<open>docstring()\<close> is a method without arguments, so a field).
\<close>

record Completion =
  name :: string
  type :: string
  description :: string
  completion_docstring :: string

record Definition =
  docstring :: string
  module_path :: string
  def_line :: nat
  def_column :: nat
  def_name :: string

text \<open>
  A jedi \<^verbatim>\<open>Script\<close> is bound to one buffer and one cursor; the handlers call four of its
  methods, none with an argument that varies, so the script is the record of their results.
  What the engine computes is outside the repository: a failure inside the engine is not
  modelled, only a failure to obtain the script.
\<close>

record Script =
  completions :: "Completion list"
  goto_assignments :: "Definition list"
  goto_definitions :: "Definition list"
  usages :: "Definition list"

text \<open>
  The server object: the sync kind it declares and the workspace of open documents. The
  workspace class belongs to the pygls library, so its type is a parameter.
\<close>

record 'ws LanguageServer =
  sync_kind :: TextDocumentSyncKind
  workspace :: 'ws

text \<open>
  \<^verbatim>\<open>get_jedi_script\<close> and \<^verbatim>\<open>locations_from_definitions\<close> (module
  \<^verbatim>\<open>server_utils\<close>) and \<^verbatim>\<open>get_lsp_type\<close> (module \<^verbatim>\<open>type_map\<close>) are imported by
  \<^verbatim>\<open>server.py\<close> and are parameters of the handlers below. \<^verbatim>\<open>get_jedi_script\<close> receives
  the server object, so it is typed as an action on the server state that may raise.
\<close>

type_synonym ('ws, 'a) action = "'ws LanguageServer \<Rightarrow> (error + 'a) \<times> 'ws LanguageServer"

type_synonym 'ws get_script = "TextDocumentPositionParams \<Rightarrow> ('ws, Script) action"

section \<open>Read-request handlers\<close>

definition completion_item :: "(string \<Rightarrow> nat) \<Rightarrow> Completion \<Rightarrow> CompletionItem" where
  "completion_item get_lsp_type completion =
     \<lparr>label = name completion,
      kind = get_lsp_type (type completion),
      detail = description completion,
      documentation = completion_docstring completion,
      insert_text = name completion\<rparr>"

definition lsp_completion ::
  "'ws get_script \<Rightarrow> (string \<Rightarrow> nat) \<Rightarrow> TextDocumentPositionParams \<Rightarrow> ('ws, CompletionList) action"
where
  "lsp_completion get_jedi_script get_lsp_type params server =
     (case get_jedi_script params server of
        (Inl e, server') \<Rightarrow> (Inl e, server')
      | (Inr script, server') \<Rightarrow>
          (let jedi_completions = completions script
           in (Inr \<lparr>is_incomplete = False,
                    items = map (completion_item get_lsp_type) jedi_completions\<rparr>,
               server')))"

definition lsp_definition ::
  "'ws get_script \<Rightarrow> (Definition list \<Rightarrow> Location list) \<Rightarrow> TextDocumentPositionParams
     \<Rightarrow> ('ws, Location list) action"
where
  "lsp_definition get_jedi_script locations_from_definitions params server =
     (case get_jedi_script params server of
        (Inl e, server') \<Rightarrow> (Inl e, server')
      | (Inr script, server') \<Rightarrow>
          (let definitions = goto_assignments script
           in (Inr (locations_from_definitions definitions), server')))"

definition no_docstring :: string where
  "no_docstring = ''No docstring definition found.''"

definition lsp_hover ::
  "'ws get_script \<Rightarrow> TextDocumentPositionParams \<Rightarrow> ('ws, Hover) action"
where
  "lsp_hover get_jedi_script params server =
     (case get_jedi_script params server of
        (Inl e, server') \<Rightarrow> (Inl e, server')
      | (Inr script, server') \<Rightarrow>
          (let definitions = goto_definitions script
           in if definitions \<noteq> []
              then (case py_index definitions 0 of
                      Inl e \<Rightarrow> (Inl e, server')
                    | Inr d \<Rightarrow> (Inr \<lparr>contents = docstring d\<rparr>, server'))
              else (Inr \<lparr>contents = no_docstring\<rparr>, server')))"

definition lsp_references ::
  "'ws get_script \<Rightarrow> (Definition list \<Rightarrow> Location list) \<Rightarrow> TextDocumentPositionParams
     \<Rightarrow> ('ws, Location list) action"
where
  "lsp_references get_jedi_script locations_from_definitions params server =
     (case get_jedi_script params server of
        (Inl e, server') \<Rightarrow> (Inl e, server')
      | (Inr script, server') \<Rightarrow>
          (let definitions = usages script
           in (Inr (locations_from_definitions definitions), server')))"

subsection \<open>Rename\<close>

text \<open>The three dict operations of the rename loop, on an insertion-ordered dict.\<close>

definition dict_contains :: "('k \<times> 'v) list \<Rightarrow> 'k \<Rightarrow> bool" where
  "dict_contains d k = (k \<in> set (map fst d))"

text \<open>\<^verbatim>\<open>d[k] = v\<close>: an existing key keeps its place, a new key goes last.\<close>

fun dict_setitem :: "('k \<times> 'v) list \<Rightarrow> 'k \<Rightarrow> 'v \<Rightarrow> ('k \<times> 'v) list" where
  "dict_setitem [] k v = [(k, v)]"
| "dict_setitem ((k', v') # d) k v =
     (if k' = k then (k, v) # d else (k', v') # dict_setitem d k v)"

text \<open>\<^verbatim>\<open>d[k].append(x)\<close>: a missing key raises \<^verbatim>\<open>KeyError\<close>.\<close>

fun dict_append :: "('k \<times> 'v list) list \<Rightarrow> 'k \<Rightarrow> 'v \<Rightarrow> error + ('k \<times> 'v list) list" where
  "dict_append [] k x = Inl KeyError"
| "dict_append ((k', xs) # d) k x =
     (if k' = k then Inr ((k', xs @ [x]) # d)
      else (case dict_append d k x of
              Inl e \<Rightarrow> Inl e
            | Inr d' \<Rightarrow> Inr ((k', xs) # d')))"

text \<open>The body of the \<^verbatim>\<open>for location in locations\<close> loop, and the loop.\<close>

definition rename_step ::
  "string \<Rightarrow> (string \<times> TextEdit list) list \<Rightarrow> Location
     \<Rightarrow> error + (string \<times> TextEdit list) list"
where
  "rename_step new dict location =
     (let text_edit = \<lparr>edit_range = loc_range location, new_text = new\<rparr>
      in if \<not> dict_contains dict (loc_uri location)
         then Inr (dict_setitem dict (loc_uri location) [text_edit])
         else dict_append dict (loc_uri location) text_edit)"

fun rename_loop ::
  "string \<Rightarrow> (string \<times> TextEdit list) list \<Rightarrow> Location list
     \<Rightarrow> error + (string \<times> TextEdit list) list"
where
  "rename_loop new dict [] = Inr dict"
| "rename_loop new dict (location # locations) =
     (case rename_step new dict location of
        Inl e \<Rightarrow> Inl e
      | Inr dict' \<Rightarrow> rename_loop new dict' locations)"

definition lsp_rename ::
  "'ws get_script \<Rightarrow> (Definition list \<Rightarrow> Location list) \<Rightarrow> RenameParams
     \<Rightarrow> ('ws, WorkspaceEdit option) action"
where
  "lsp_rename get_jedi_script locations_from_definitions params server =
     (case get_jedi_script (TextDocumentPositionParams.truncate params) server of
        (Inl e, server') \<Rightarrow> (Inl e, server')
      | (Inr script, server') \<Rightarrow>
          (let definitions = usages script;
               locations = locations_from_definitions definitions
           in if locations = [] then (Inr None, server')
              else (case rename_loop (newName params) [] locations of
                      Inl e \<Rightarrow> (Inl e, server')
                    | Inr dict \<Rightarrow> (Inr (Some \<lparr>changes = dict\<rparr>), server'))))"

section \<open>Document notifications\<close>

record VersionedTextDocumentIdentifier = TextDocumentIdentifier +
  id_version :: int

record TextDocumentContentChangeEvent =
  change_range :: "Range option"
  change_rangeLength :: "nat option"
  change_text :: string

record DidChangeTextDocumentParams =
  change_textDocument :: VersionedTextDocumentIdentifier
  contentChanges :: "TextDocumentContentChangeEvent list"

record TextDocumentItem =
  item_uri :: string
  languageId :: string
  item_version :: int
  item_text :: string

record DidOpenTextDocumentParams =
  open_textDocument :: TextDocumentItem

text \<open>
  \<^verbatim>\<open>workspace.update_document\<close> and \<^verbatim>\<open>workspace.put_document\<close> are methods of the
  library's workspace object: parameters of the two handlers. A method mutates the workspace
  and may raise; what it has written before raising stays written.
\<close>

type_synonym 'ws update_document =
  "VersionedTextDocumentIdentifier \<Rightarrow> TextDocumentContentChangeEvent \<Rightarrow> 'ws \<Rightarrow> (error + unit) \<times> 'ws"

type_synonym 'ws put_document = "TextDocumentItem \<Rightarrow> 'ws \<Rightarrow> (error + unit) \<times> 'ws"

text \<open>The \<^verbatim>\<open>for change in params.contentChanges\<close> loop: one call per entry, in order.\<close>

fun update_each ::
  "'ws update_document \<Rightarrow> VersionedTextDocumentIdentifier
     \<Rightarrow> TextDocumentContentChangeEvent list \<Rightarrow> 'ws \<Rightarrow> (error + unit) \<times> 'ws"
where
  "update_each update_document text_doc [] ws = (Inr (), ws)"
| "update_each update_document text_doc (change # rest) ws =
     (case update_document text_doc change ws of
        (Inl e, ws') \<Rightarrow> (Inl e, ws')
      | (Inr _, ws') \<Rightarrow> update_each update_document text_doc rest ws')"

definition lsp_did_change ::
  "'ws update_document \<Rightarrow> DidChangeTextDocumentParams \<Rightarrow> ('ws, unit) action"
where
  "lsp_did_change update_document params server =
     (let ws = workspace server
      in if contentChanges params \<noteq> []
         then (case update_each update_document (change_textDocument params)
                      (contentChanges params) ws of
                 (r, ws') \<Rightarrow> (r, server\<lparr>workspace := ws'\<rparr>))
         else (Inr (), server))"

definition lsp_did_open ::
  "'ws put_document \<Rightarrow> DidOpenTextDocumentParams \<Rightarrow> ('ws, unit) action"
where
  "lsp_did_open put_document params server =
     (let ws = workspace server
      in case put_document (open_textDocument params) ws of
           (r, ws') \<Rightarrow> (r, server\<lparr>workspace := ws'\<rparr>))"

section \<open>The workspace of the pygls library\<close>

text \<open>
  \<^verbatim>\<open>server.workspace\<close> is an instance of \<^verbatim>\<open>pygls.workspace.Workspace\<close>: library code, outside
  the repository. Its two methods, as the library implements them:
  \<^verbatim>\<open>
  def put_document(self, text_document):
      doc_uri = text_document.uri
      self._docs[doc_uri] = self._create_document(
          doc_uri, source=text_document.text, version=text_document.version)

  def update_document(self, text_doc, change):
      doc_uri = text_doc.uri
      self._docs[doc_uri].apply_change(change)
      self._docs[doc_uri].version = text_doc.version
  \<close>
  The workspace is the dict \<^verbatim>\<open>_docs\<close>. How \<^verbatim>\<open>Document.apply_change\<close> computes the new text
  from the old one and the entry (replace it all, or splice a range) differs between versions
  of the library and sync kinds, so it is the parameter \<open>apply_change\<close>.
\<close>

record Document =
  doc_uri :: string
  source :: string
  version :: int

type_synonym Workspace = "string \<rightharpoonup> Document"

definition pygls_put_document :: "Workspace put_document" where
  "pygls_put_document text_document docs =
     (let uri = item_uri text_document
      in (Inr (),
          docs(uri \<mapsto> \<lparr>doc_uri = uri, source = item_text text_document,
                        version = item_version text_document\<rparr>)))"

definition pygls_update_document ::
  "(string \<Rightarrow> TextDocumentContentChangeEvent \<Rightarrow> string) \<Rightarrow> Workspace update_document"
where
  "pygls_update_document apply_change text_doc change docs =
     (let uri = id_uri text_doc
      in case docs uri of
           None \<Rightarrow> (Inl KeyError, docs)
         | Some doc \<Rightarrow>
             (Inr (),
              docs(uri \<mapsto> doc\<lparr>source := apply_change (source doc) change,
                                version := id_version text_doc\<rparr>)))"

text \<open>Full-document replacement: the entry's text is the new text.\<close>

definition full_change :: "string \<Rightarrow> TextDocumentContentChangeEvent \<Rightarrow> string" where
  "full_change old change = change_text change"

text \<open>What one call of the library's \<^verbatim>\<open>update_document\<close> does to the document it finds.\<close>

definition updated ::
  "(string \<Rightarrow> TextDocumentContentChangeEvent \<Rightarrow> string) \<Rightarrow> VersionedTextDocumentIdentifier
     \<Rightarrow> Document \<Rightarrow> TextDocumentContentChangeEvent \<Rightarrow> Document"
where
  "updated apply_change text_doc doc change =
     doc\<lparr>source := apply_change (source doc) change, version := id_version text_doc\<rparr>"

text \<open>
  \<^verbatim>\<open>SERVER = LanguageServer()\<close> followed by \<^verbatim>\<open>SERVER.sync_kind = TextDocumentSyncKind.FULL\<close>;
  no document is open at start.
\<close>

definition SERVER :: "Workspace LanguageServer" where
  "SERVER = \<lparr>sync_kind = FULL, workspace = Map.empty\<rparr>"

section \<open>Position translator\<close>

text \<open>
  Modelled from the spec: the position translator (\<^verbatim>\<open>toOffset\<close>, \<^verbatim>\<open>fromOffset\<close>) is not in
  \<^verbatim>\<open>server.py\<close>; the cursor is converted inside \<^verbatim>\<open>get_jedi_script\<close> of the module
  \<^verbatim>\<open>server_utils\<close>. The definitions of this section follow section 4.2 of the specification.
  A text is a sequence of Unicode scalar values (a Python \<^verbatim>\<open>str\<close>), an offset indexes it, and
  the \<^verbatim>\<open>character\<close> of a position counts UTF-16 code units. Lines end at the line feed.
\<close>

definition newline :: nat where
  "newline = 10"

text \<open>
  Modelled from the spec: the one shared code-unit-counting routine. A scalar value outside
  the basic plane is a surrogate pair, two units.
\<close>

definition utf16_units :: "nat \<Rightarrow> nat" where
  "utf16_units c = (if 65536 \<le> c then 2 else 1)"

text \<open>
  Modelled from the spec: "walk line boundaries": the offset at which line \<open>n\<close> starts,
  none when the text has fewer lines.
\<close>

fun line_start :: "nat list \<Rightarrow> nat \<Rightarrow> nat option" where
  "line_start text 0 = Some 0"
| "line_start [] (Suc n) = None"
| "line_start (c # cs) (Suc n) =
     map_option Suc (line_start cs (if c = newline then n else Suc n))"

text \<open>
  Modelled from the spec: "then walk code units within the target line, counting surrogate
  pairs as two units": the number of scalar values that make up \<open>k\<close> units; none when the
  line is shorter, or when \<open>k\<close> units end inside a surrogate pair.
\<close>

fun column_offset :: "nat list \<Rightarrow> nat \<Rightarrow> nat option" where
  "column_offset cs 0 = Some 0"
| "column_offset [] (Suc k) = None"
| "column_offset (c # cs) (Suc k) =
     (if c = newline \<or> Suc k < utf16_units c then None
      else map_option Suc (column_offset cs (Suc k - utf16_units c)))"

text \<open>Modelled from the spec: \<^verbatim>\<open>toOffset(text, position)\<close>, failing with \<^verbatim>\<open>PositionOutOfRange\<close>.\<close>

definition toOffset :: "nat list \<Rightarrow> Position \<Rightarrow> error + nat" where
  "toOffset text pos =
     (case line_start text (line pos) of
        None \<Rightarrow> Inl PositionOutOfRange
      | Some a \<Rightarrow>
          (case column_offset (drop a text) (character pos) of
             None \<Rightarrow> Inl PositionOutOfRange
           | Some b \<Rightarrow> Inr (a + b)))"

text \<open>
  Modelled from the spec: \<^verbatim>\<open>fromOffset(text, offset)\<close>, the inverse direction, on the same
  counting routine: the position reached after the first \<open>offset\<close> scalar values.
\<close>

definition advance :: "Position \<Rightarrow> nat \<Rightarrow> Position" where
  "advance p c =
     (if c = newline then \<lparr>line = Suc (line p), character = 0\<rparr>
      else p\<lparr>character := character p + utf16_units c\<rparr>)"

definition fromOffset :: "nat list \<Rightarrow> nat \<Rightarrow> error + Position" where
  "fromOffset text offset =
     (if offset \<le> length text
      then Inr (foldl advance \<lparr>line = 0, character = 0\<rparr> (take offset text))
      else Inl PositionOutOfRange)"

text \<open>
  Modelled from the spec: a valid position of a text. The text splits into lines at the line
  feeds; a position is valid when its line exists and its character is the UTF-16 column of a
  boundary between two scalar values of that line (its start and its end included).
\<close>

fun lines_of :: "nat list \<Rightarrow> nat list list" where
  "lines_of [] = [[]]"
| "lines_of (c # cs) =
     (if c = newline then [] # lines_of cs
      else (c # hd (lines_of cs)) # tl (lines_of cs))"

fun boundaries :: "nat list \<Rightarrow> nat list" where
  "boundaries [] = [0]"
| "boundaries (c # cs) = 0 # map (\<lambda>k. k + utf16_units c) (boundaries cs)"

definition valid_position :: "nat list \<Rightarrow> Position \<Rightarrow> bool" where
  "valid_position text pos =
     (line pos < length (lines_of text) \<and>
      character pos \<in> set (boundaries (lines_of text ! line pos)))"

section \<open>The specification's wording, for comparison\<close>

text \<open>The uris of a location sequence in the order in which each is first seen.\<close>

primrec first_seen :: "'a list \<Rightarrow> 'a list" where
  "first_seen [] = []"
| "first_seen (x # xs) = x # removeAll x (first_seen xs)"

text \<open>
  The edits the specification asks for under one uri: for each location of that uri, in the
  locations' order, the replacement of its range by the new name.
\<close>

definition edits_for :: "string \<Rightarrow> Location list \<Rightarrow> string \<Rightarrow> TextEdit list" where
  "edits_for new locations u =
     map (\<lambda>l. \<lparr>edit_range = loc_range l, new_text = new\<rparr>)
       (filter (\<lambda>l. loc_uri l = u) locations)"

definition grouped :: "string \<Rightarrow> Location list \<Rightarrow> (string \<times> TextEdit list) list" where
  "grouped new locations =
     map (\<lambda>u. (u, edits_for new locations u)) (first_seen (map loc_uri locations))"

text \<open>
  Hover as the specification words it: the first entry's documentation when there is a first
  entry and it has documentation, the placeholder otherwise. A jedi docstring is a string,
  empty when the definition has none.
\<close>

definition hover_per_spec :: "Definition list \<Rightarrow> string" where
  "hover_per_spec definitions =
     (if definitions \<noteq> [] \<and> docstring (hd definitions) \<noteq> []
      then docstring (hd definitions)
      else ''no documentation available'')"

text \<open>
  The change handler in words: the entries are handed to \<^verbatim>\<open>update_document\<close> one by one, in
  order, each on the workspace the call before left; once a call has raised, the entries
  after it are skipped and its error and workspace stand.
\<close>

definition hand_over ::
  "'ws update_document \<Rightarrow> VersionedTextDocumentIdentifier \<Rightarrow> (error + unit) \<times> 'ws
     \<Rightarrow> TextDocumentContentChangeEvent \<Rightarrow> (error + unit) \<times> 'ws"
where
  "hand_over update_document text_doc outcome change =
     (case outcome of
        (Inl e, ws) \<Rightarrow> (Inl e, ws)
      | (Inr _, ws) \<Rightarrow> update_document text_doc change ws)"

section \<open>Concrete inputs\<close>

text \<open>
  Stand-ins for the three imported helpers at the concrete inputs below: a
  \<^verbatim>\<open>get_jedi_script\<close> that looks the document up in the workspace and lets an engine build the
  script from it, a \<^verbatim>\<open>locations_from_definitions\<close> that reads each definition's path, line,
  column and name, and a \<^verbatim>\<open>get_lsp_type\<close> with a default.
\<close>

definition example_get_jedi_script ::
  "(Document \<Rightarrow> Position \<Rightarrow> Script) \<Rightarrow> Workspace get_script"
where
  "example_get_jedi_script engine params server =
     (case workspace server (id_uri (textDocument params)) of
        None \<Rightarrow> (Inl UnknownDocument, server)
      | Some doc \<Rightarrow> (Inr (engine doc (position params)), server))"

definition example_locations_from_definitions :: "Definition list \<Rightarrow> Location list" where
  "example_locations_from_definitions =
     map (\<lambda>d. \<lparr>loc_uri = module_path d,
               loc_range =
                 \<lparr>range_start = \<lparr>line = def_line d, character = def_column d\<rparr>,
                  range_end = \<lparr>line = def_line d,
                               character = def_column d + length (def_name d)\<rparr>\<rparr>\<rparr>)"

definition example_get_lsp_type :: "string \<Rightarrow> nat" where
  "example_get_lsp_type t = (if t = ''function'' then 3 else if t = ''class'' then 7 else 1)"

definition example_item :: TextDocumentItem where
  "example_item =
     \<lparr>item_uri = ''a.py'', languageId = ''python'', item_version = 1, item_text = ''x = 1''\<rparr>"

definition example_reopen :: DidOpenTextDocumentParams where
  "example_reopen =
     \<lparr>open_textDocument =
        \<lparr>item_uri = ''a.py'', languageId = ''python'', item_version = 7, item_text = ''y = 0''\<rparr>\<rparr>"

definition example_open :: "Workspace LanguageServer" where
  "example_open =
     snd (lsp_did_open pygls_put_document \<lparr>open_textDocument = example_item\<rparr> SERVER)"

definition example_params :: TextDocumentPositionParams where
  "example_params =
     \<lparr>textDocument = \<lparr>id_uri = ''a.py''\<rparr>, position = \<lparr>line = 0, character = 0\<rparr>\<rparr>"

definition example_rename_params :: RenameParams where
  "example_rename_params =
     \<lparr>textDocument = \<lparr>id_uri = ''a.py''\<rparr>, position = \<lparr>line = 0, character = 0\<rparr>,
      newName = ''y''\<rparr>"

definition usage :: "string \<Rightarrow> nat \<Rightarrow> string \<Rightarrow> Definition" where
  "usage path l doc =
     \<lparr>docstring = doc, module_path = path, def_line = l, def_column = 0, def_name = ''x''\<rparr>"

text \<open>
  An engine with two completions, one definition whose docstring is empty, and three usages
  in two files, the second file between two usages of the first.
\<close>

definition example_script :: Script where
  "example_script =
     \<lparr>completions =
        [\<lparr>name = ''real'', type = ''function'', description = ''def real'',
          completion_docstring = ''The real part.''\<rparr>,
         \<lparr>name = ''imag'', type = ''instance'', description = ''imag'',
          completion_docstring = []\<rparr>],
      goto_assignments = [usage ''a.py'' 0 []],
      goto_definitions = [usage ''a.py'' 0 []],
      usages = [usage ''a.py'' 0 [], usage ''b.py'' 4 [], usage ''a.py'' 2 []]\<rparr>"

definition example_engine :: "Document \<Rightarrow> Position \<Rightarrow> Script" where
  "example_engine doc pos = example_script"

definition change_params ::
  "int \<Rightarrow> TextDocumentContentChangeEvent list \<Rightarrow> DidChangeTextDocumentParams"
where
  "change_params v entries =
     \<lparr>change_textDocument = \<lparr>id_uri = ''a.py'', id_version = v\<rparr>, contentChanges = entries\<rparr>"

definition full_entry :: "string \<Rightarrow> TextDocumentContentChangeEvent" where
  "full_entry new = \<lparr>change_range = None, change_rangeLength = None, change_text = new\<rparr>"

definition ranged_entry :: TextDocumentContentChangeEvent where
  "ranged_entry =
     \<lparr>change_range = Some \<lparr>range_start = \<lparr>line = 0, character = 4\<rparr>,
                            range_end = \<lparr>line = 0, character = 5\<rparr>\<rparr>,
      change_rangeLength = Some 1,
      change_text = ''2''\<rparr>"

text \<open>
  A line with a scalar value outside the basic plane (U+1F600) between two letters, a line
  feed, and a second line.
\<close>

definition example_text :: "nat list" where
  "example_text = [97, 128512, 98, 10, 99]"

section \<open>The concrete inputs, evaluated\<close>

lemma example_open_eq:
  "example_open =
     \<lparr>sync_kind = FULL,
      workspace = [''a.py'' \<mapsto> \<lparr>doc_uri = ''a.py'', source = ''x = 1'', version = 1\<rparr>]\<rparr>"
  by (simp add: example_open_def lsp_did_open_def pygls_put_document_def example_item_def
      SERVER_def Let_def)

lemma example_script_found:
  "id_uri (textDocument params) = ''a.py'' \<Longrightarrow>
     example_get_jedi_script example_engine params example_open
       = (Inr example_script, example_open)"
  by (simp add: example_get_jedi_script_def example_engine_def example_open_eq)

lemma example_locations_uris:
  "map loc_uri (example_locations_from_definitions (usages example_script))
     = [''a.py'', ''b.py'', ''a.py'']"
  by (simp add: example_script_def example_locations_from_definitions_def usage_def)

section \<open>Rename groups the locations by uri\<close>

lemma set_first_seen: "set (first_seen xs) = set xs"
  by (induction xs) auto

lemma distinct_first_seen: "distinct (first_seen xs)"
  by (induction xs) (auto simp: distinct_removeAll)

lemma first_seen_snoc:
  "first_seen (xs @ [x]) = (if x \<in> set xs then first_seen xs else first_seen xs @ [x])"
  by (induction xs) auto

lemma dict_setitem_new:
  "k \<notin> set (map fst d) \<Longrightarrow> dict_setitem d k v = d @ [(k, v)]"
  by (induction d) auto

lemma dict_append_distinct:
  "k \<in> set (map fst d) \<Longrightarrow> distinct (map fst d) \<Longrightarrow>
   dict_append d k x = Inr (map (\<lambda>(k', xs). (k', if k' = k then xs @ [x] else xs)) d)"
proof (induction d)
  case Nil
  then show ?case by simp
next
  case (Cons p d)
  obtain k' xs where p: "p = (k', xs)" by (cases p)
  show ?case
  proof (cases "k' = k")
    case True
    with Cons.prems p have "k \<notin> set (map fst d)" by auto
    then have "map (\<lambda>(k', xs). (k', if k' = k then xs @ [x] else xs)) d = d"
      by (induction d) auto
    with True p show ?thesis by simp
  next
    case False
    with Cons p show ?thesis by auto
  qed
qed

lemma rename_loop_snoc:
  "rename_loop new d (ls @ [l]) =
     (case rename_loop new d ls of Inl e \<Rightarrow> Inl e | Inr d' \<Rightarrow> rename_step new d' l)"
  by (induction ls arbitrary: d) (auto split: sum.splits)

lemma map_fst_grouped: "map fst (grouped new ls) = first_seen (map loc_uri ls)"
  by (simp add: grouped_def comp_def)

lemma edits_for_snoc:
  "edits_for new (ls @ [l]) u =
     (if loc_uri l = u then edits_for new ls u @ [\<lparr>edit_range = loc_range l, new_text = new\<rparr>]
      else edits_for new ls u)"
  by (simp add: edits_for_def)

lemma edits_for_absent: "u \<notin> set (map loc_uri ls) \<Longrightarrow> edits_for new ls u = []"
  by (induction ls) (auto simp: edits_for_def)

text \<open>
  The loop invariant: after the locations \<open>ls\<close> the dict is \<open>grouped new ls\<close>, and one more
  location takes it to the grouping of \<open>ls @ [l]\<close>, through the branch for a new uri or the
  branch for a uri already present.
\<close>

lemma rename_step_grouped:
  "rename_step new (grouped new ls) l = Inr (grouped new (ls @ [l]))"
proof (cases "loc_uri l \<in> set (map loc_uri ls)")
  case True
  then have "dict_contains (grouped new ls) (loc_uri l)"
    by (simp add: dict_contains_def map_fst_grouped set_first_seen)
  moreover have "dict_append (grouped new ls) (loc_uri l) \<lparr>edit_range = loc_range l, new_text = new\<rparr>
      = Inr (grouped new (ls @ [l]))"
  proof -
    have "loc_uri l \<in> set (map fst (grouped new ls))"
      using True by (simp add: map_fst_grouped set_first_seen)
    moreover have "distinct (map fst (grouped new ls))"
      by (simp add: map_fst_grouped distinct_first_seen)
    ultimately show ?thesis
      using True
      by (simp add: dict_append_distinct) (simp add: grouped_def first_seen_snoc edits_for_snoc)
  qed
  ultimately show ?thesis by (simp add: rename_step_def)
next
  case False
  then have nc: "\<not> dict_contains (grouped new ls) (loc_uri l)"
    by (simp add: dict_contains_def map_fst_grouped set_first_seen)
  have "loc_uri l \<notin> set (map fst (grouped new ls))"
    using False by (simp add: map_fst_grouped set_first_seen)
  then have "dict_setitem (grouped new ls) (loc_uri l) [\<lparr>edit_range = loc_range l, new_text = new\<rparr>]
      = grouped new ls @ [(loc_uri l, [\<lparr>edit_range = loc_range l, new_text = new\<rparr>])]"
    by (rule dict_setitem_new)
  also have "\<dots> = grouped new (ls @ [l])"
    using False
    by (auto simp: grouped_def first_seen_snoc edits_for_snoc edits_for_absent set_first_seen)
  finally show ?thesis using nc by (simp add: rename_step_def)
qed

lemma rename_loop_grouped: "rename_loop new [] ls = Inr (grouped new ls)"
proof (induction ls rule: rev_induct)
  case Nil
  then show ?case by (simp add: grouped_def)
next
  case (snoc l ls)
  then show ?case by (simp add: rename_loop_snoc rename_step_grouped)
qed

text \<open>
  C1. When the script is obtained and \<open>locations\<close> are the converted usages: no location
  gives \<open>None\<close> (no edit), not an edit with an empty mapping. Otherwise the handler returns a
  workspace edit whose keys are pairwise distinct, are exactly the uris of the locations in
  the order in which each uri is first seen, and hold, under each uri, one edit per location
  of that uri, in the locations' order, each replacing that location's range by the new name.
\<close>

theorem lsp_rename_groups_by_uri:
  assumes "get_jedi_script (TextDocumentPositionParams.truncate params) server
             = (Inr script, server')"
    and "locations = locations_from_definitions (usages script)"
  shows "(locations = [] \<longrightarrow>
            fst (lsp_rename get_jedi_script locations_from_definitions params server)
              = Inr None) \<and>
         (locations \<noteq> [] \<longrightarrow>
            (\<exists>dict.
               fst (lsp_rename get_jedi_script locations_from_definitions params server)
                 = Inr (Some \<lparr>changes = dict\<rparr>) \<and>
               distinct (map fst dict) \<and>
               map fst dict = first_seen (map loc_uri locations) \<and>
               set (map fst dict) = set (map loc_uri locations) \<and>
               (\<forall>u es. (u, es) \<in> set dict \<longrightarrow>
                  es = map (\<lambda>l. \<lparr>edit_range = loc_range l, new_text = newName params\<rparr>)
                         (filter (\<lambda>l. loc_uri l = u) locations))))"
proof (cases "locations = []")
  case True
  with assms show ?thesis by (simp add: lsp_rename_def)
next
  case False
  let ?dict = "grouped (newName params) locations"
  have res: "fst (lsp_rename get_jedi_script locations_from_definitions params server)
      = Inr (Some \<lparr>changes = ?dict\<rparr>)"
    using assms False by (simp add: lsp_rename_def rename_loop_grouped)
  have keys: "map fst ?dict = first_seen (map loc_uri locations)"
    by (rule map_fst_grouped)
  have "distinct (map fst ?dict)"
    by (simp add: keys distinct_first_seen)
  moreover have "set (map fst ?dict) = set (map loc_uri locations)"
    by (simp only: keys set_first_seen)
  moreover have "\<forall>u es. (u, es) \<in> set ?dict \<longrightarrow>
      es = map (\<lambda>l. \<lparr>edit_range = loc_range l, new_text = newName params\<rparr>)
             (filter (\<lambda>l. loc_uri l = u) locations)"
    by (auto simp: grouped_def edits_for_def)
  ultimately show ?thesis using False res keys by blast
qed

theorem lsp_rename_groups_by_uri_witness:
  "\<exists>dict.
     fst (lsp_rename (example_get_jedi_script example_engine)
            example_locations_from_definitions example_rename_params example_open)
       = Inr (Some \<lparr>changes = dict\<rparr>) \<and>
     distinct (map fst dict) \<and>
     map fst dict = [''a.py'', ''b.py'']"
proof -
  let ?locations = "example_locations_from_definitions (usages example_script)"
  have script: "example_get_jedi_script example_engine
      (TextDocumentPositionParams.truncate example_rename_params) example_open
      = (Inr example_script, example_open)"
    by (simp add: example_script_found example_rename_params_def
        TextDocumentPositionParams.truncate_def)
  have nonempty: "?locations \<noteq> []"
    using example_locations_uris by auto
  have order: "first_seen (map loc_uri ?locations) = [''a.py'', ''b.py'']"
    by (simp add: example_locations_uris)
  from lsp_rename_groups_by_uri
    [where get_jedi_script = "example_get_jedi_script example_engine"
       and locations_from_definitions = example_locations_from_definitions,
     OF script refl] nonempty
  obtain dict where
    "fst (lsp_rename (example_get_jedi_script example_engine)
            example_locations_from_definitions example_rename_params example_open)
       = Inr (Some \<lparr>changes = dict\<rparr>)"
    and "distinct (map fst dict)"
    and "map fst dict = first_seen (map loc_uri ?locations)"
    by blast
  with order show ?thesis by (intro exI [of _ dict]) simp
qed

section \<open>Completion keeps the engine's order\<close>

text \<open>
  C4. When the script is obtained, the handler returns a completion list whose flag
  \<open>is_incomplete\<close> is false and whose items are, position by position, the items built from
  the engine's completions: as many, in the same order, each labelled with its completion's
  name.
\<close>

theorem lsp_completion_keeps_order:
  assumes "get_jedi_script params server = (Inr script, server')"
  shows "\<exists>result.
           fst (lsp_completion get_jedi_script get_lsp_type params server) = Inr result \<and>
           is_incomplete result = False \<and>
           length (items result) = length (completions script) \<and>
           (\<forall>i < length (completions script).
              items result ! i = completion_item get_lsp_type (completions script ! i)) \<and>
           map label (items result) = map name (completions script)"
  using assms by (simp add: lsp_completion_def completion_item_def comp_def)

theorem lsp_completion_keeps_order_witness:
  "\<exists>result.
     fst (lsp_completion (example_get_jedi_script example_engine) example_get_lsp_type
            example_params example_open) = Inr result \<and>
     is_incomplete result = False \<and>
     map label (items result) = [''real'', ''imag''] \<and>
     map kind (items result) = [3, 1]"
proof -
  have script: "example_get_jedi_script example_engine example_params example_open
      = (Inr example_script, example_open)"
    by (simp add: example_script_found example_params_def)
  from lsp_completion_keeps_order
    [where get_jedi_script = "example_get_jedi_script example_engine"
       and get_lsp_type = example_get_lsp_type, OF script]
  obtain result where
    r: "fst (lsp_completion (example_get_jedi_script example_engine) example_get_lsp_type
            example_params example_open) = Inr result"
    and "is_incomplete result = False"
    and len: "length (items result) = length (completions example_script)"
    and nth: "\<forall>i < length (completions example_script).
        items result ! i = completion_item example_get_lsp_type (completions example_script ! i)"
    by blast
  from len nth have "items result = map (completion_item example_get_lsp_type) (completions example_script)"
    by (simp add: list_eq_iff_nth_eq)
  then have "map label (items result) = [''real'', ''imag'']"
    and "map kind (items result) = [3, 1]"
    by (simp_all add: example_script_def completion_item_def example_get_lsp_type_def)
  with r \<open>is_incomplete result = False\<close> show ?thesis by (intro exI [of _ result]) simp
qed

section \<open>Hover\<close>

text \<open>
  C2, as stated, fails: the engine returns one definition whose docstring is empty. The
  handler returns that empty docstring, where the claim asks for the placeholder.
\<close>

theorem lsp_hover_empty_docstring_counterexample:
  "fst (lsp_hover (example_get_jedi_script example_engine) example_params example_open)
     = Inr \<lparr>contents = []\<rparr> \<and>
   hover_per_spec (goto_definitions example_script) = ''no documentation available'' \<and>
   fst (lsp_hover (example_get_jedi_script example_engine) example_params example_open)
     \<noteq> Inr \<lparr>contents = hover_per_spec (goto_definitions example_script)\<rparr>"
  by (simp add: lsp_hover_def example_script_found example_params_def example_script_def
      usage_def py_index_def hover_per_spec_def)

text \<open>
  C2, amended. When the script is obtained the handler does not fail. It returns the first
  definition's docstring whenever the engine returns a definition, also when that docstring
  is empty, and the placeholder \<^verbatim>\<open>No docstring definition found.\<close> exactly when the engine
  returns none. The index \<^verbatim>\<open>definitions[0]\<close> is guarded, so it never raises.
\<close>

theorem lsp_hover_first_docstring:
  assumes "get_jedi_script params server = (Inr script, server')"
  shows "fst (lsp_hover get_jedi_script params server) =
           Inr \<lparr>contents = (case goto_definitions script of
                               [] \<Rightarrow> ''No docstring definition found.''
                             | d # _ \<Rightarrow> docstring d)\<rparr>"
  using assms
  by (simp add: lsp_hover_def py_index_def no_docstring_def split: list.splits)

theorem lsp_hover_first_docstring_witness:
  "fst (lsp_hover (example_get_jedi_script (\<lambda>doc pos. example_script\<lparr>goto_definitions := []\<rparr>))
          example_params example_open)
     = Inr \<lparr>contents = ''No docstring definition found.''\<rparr>"
proof -
  have script: "example_get_jedi_script (\<lambda>doc pos. example_script\<lparr>goto_definitions := []\<rparr>)
      example_params example_open
      = (Inr (example_script\<lparr>goto_definitions := []\<rparr>), example_open)"
    by (simp add: example_get_jedi_script_def example_open_eq example_params_def)
  from lsp_hover_first_docstring
    [where get_jedi_script =
       "example_get_jedi_script (\<lambda>doc pos. example_script\<lparr>goto_definitions := []\<rparr>)",
     OF script]
  show ?thesis by simp
qed

section \<open>An empty change list\<close>

text \<open>
  C7. A did-change notification whose list of content changes is empty raises nothing and
  returns the server as it was: every document keeps its text and its version. This holds
  for every workspace, since the handler does not call it.
\<close>

theorem lsp_did_change_empty_noop:
  assumes "contentChanges params = []"
  shows "lsp_did_change update_document params server = (Inr (), server)"
  using assms by (simp add: lsp_did_change_def)

theorem lsp_did_change_empty_noop_witness:
  "lsp_did_change (pygls_update_document full_change) (change_params 2 []) example_open
     = (Inr (), example_open)"
proof -
  have "contentChanges (change_params 2 []) = []" by (simp add: change_params_def)
  then show ?thesis by (rule lsp_did_change_empty_noop)
qed

section \<open>The change loop on the library's workspace\<close>

lemma update_each_tracked:
  "docs (id_uri text_doc) = Some doc \<Longrightarrow>
     update_each (pygls_update_document apply_change) text_doc entries docs =
       (Inr (), docs(id_uri text_doc \<mapsto> foldl (updated apply_change text_doc) doc entries))"
proof (induction entries arbitrary: docs doc)
  case Nil
  then show ?case by (simp add: map_upd_triv)
next
  case (Cons change rest)
  let ?docs' = "docs(id_uri text_doc \<mapsto> updated apply_change text_doc doc change)"
  have step: "pygls_update_document apply_change text_doc change docs = (Inr (), ?docs')"
    using Cons.prems by (simp add: pygls_update_document_def updated_def)
  let ?doc' = "foldl (updated apply_change text_doc) (updated apply_change text_doc doc change) rest"
  have "update_each (pygls_update_document apply_change) text_doc (change # rest) docs
      = update_each (pygls_update_document apply_change) text_doc rest ?docs'"
    by (simp only: update_each.simps step prod.case sum.case)
  also have "\<dots> = (Inr (), ?docs'(id_uri text_doc \<mapsto> ?doc'))"
    by (rule Cons.IH) simp
  also have "?docs'(id_uri text_doc \<mapsto> ?doc') = docs(id_uri text_doc \<mapsto> ?doc')"
    by simp
  finally show ?case by simp
qed

lemma update_each_untracked:
  "docs (id_uri text_doc) = None \<Longrightarrow> entries \<noteq> [] \<Longrightarrow>
     update_each (pygls_update_document apply_change) text_doc entries docs = (Inl KeyError, docs)"
  by (cases entries) (simp_all add: pygls_update_document_def)

lemma version_after_updates:
  "entries \<noteq> [] \<Longrightarrow>
     version (foldl (updated apply_change text_doc) doc entries) = id_version text_doc"
  by (induction entries arbitrary: doc rule: rev_induct) (simp_all add: updated_def)

section \<open>Range-based entries are not rejected\<close>

text \<open>
  C3, as stated, fails: a notification whose only entry carries a range and a range length,
  for a tracked document, is accepted. The handler returns without an error, so not with
  \<open>UnsupportedSyncMode\<close>.
\<close>

theorem lsp_did_change_ranged_entry_counterexample:
  "change_range ranged_entry \<noteq> None \<and>
   fst (lsp_did_change (pygls_update_document full_change) (change_params 2 [ranged_entry])
          example_open) = Inr () \<and>
   fst (lsp_did_change (pygls_update_document full_change) (change_params 2 [ranged_entry])
          example_open) \<noteq> Inl UnsupportedSyncMode"
  by (simp add: lsp_did_change_def change_params_def ranged_entry_def example_open_eq
      pygls_update_document_def Let_def)

lemma hand_over_Inl:
  "hand_over update_document text_doc (Inl e, ws) change = (Inl e, ws)"
  by (simp add: hand_over_def)

lemma hand_over_Inr:
  "hand_over update_document text_doc (Inr u, ws) change = update_document text_doc change ws"
  by (simp add: hand_over_def)

lemma hand_over_raised:
  "foldl (hand_over update_document text_doc) (Inl e, ws) entries = (Inl e, ws)"
  by (induction entries) (simp_all add: hand_over_Inl)

lemma update_each_hand_over:
  "update_each update_document text_doc entries ws =
     foldl (hand_over update_document text_doc) (Inr (), ws) entries"
proof (induction entries arbitrary: ws)
  case Nil
  then show ?case by simp
next
  case (Cons change rest)
  obtain r ws' where call: "update_document text_doc change ws = (r, ws')"
    by (cases "update_document text_doc change ws")
  show ?case
  proof (cases r)
    case (Inl e)
    with call show ?thesis by (simp add: hand_over_Inr hand_over_raised)
  next
    case (Inr u)
    with call Cons.IH [of ws'] show ?thesis by (simp add: hand_over_Inr)
  qed
qed

lemma update_each_error_source:
  "fst (update_each update_document text_doc entries ws) = Inl e \<Longrightarrow>
     \<exists>change \<in> set entries. \<exists>ws'. fst (update_document text_doc change ws') = Inl e"
proof (induction entries arbitrary: ws)
  case Nil
  then show ?case by simp
next
  case (Cons change rest)
  obtain r ws' where call: "update_document text_doc change ws = (r, ws')"
    by (cases "update_document text_doc change ws")
  show ?case
  proof (cases r)
    case (Inl e')
    with call Cons.prems have "fst (update_document text_doc change ws) = Inl e" by simp
    then show ?thesis by auto
  next
    case (Inr u)
    with call Cons.prems have "fst (update_each update_document text_doc rest ws') = Inl e"
      by simp
    from Cons.IH [OF this] show ?thesis by auto
  qed
qed

text \<open>
  C3, amended. The server declares full-document sync, and that is all it does about the
  sync mode. The handler does not look at an entry: it hands every entry, with a range or
  without, to the workspace's \<^verbatim>\<open>update_document\<close>, in order, each on the workspace that
  the call before left, and stops only at a call that raises, whose error and workspace
  stand. It raises nothing of its own: when it fails with an error, \<open>UnsupportedSyncMode\<close>
  included, \<^verbatim>\<open>update_document\<close> raised that error on one of the entries.
\<close>

theorem lsp_did_change_hands_over_every_entry:
  "sync_kind SERVER = FULL \<and>
   lsp_did_change update_document params server =
     (case foldl (hand_over update_document (change_textDocument params))
             (Inr (), workspace server) (contentChanges params) of
        (r, ws') \<Rightarrow> (r, server\<lparr>workspace := ws'\<rparr>)) \<and>
   (\<forall>e. fst (lsp_did_change update_document params server) = Inl e \<longrightarrow>
      (\<exists>change \<in> set (contentChanges params).
         \<exists>ws. fst (update_document (change_textDocument params) change ws) = Inl e))"
proof -
  have "sync_kind SERVER = FULL" by (simp add: SERVER_def)
  moreover have "lsp_did_change update_document params server =
     (case foldl (hand_over update_document (change_textDocument params))
             (Inr (), workspace server) (contentChanges params) of
        (r, ws') \<Rightarrow> (r, server\<lparr>workspace := ws'\<rparr>))"
    by (cases "contentChanges params = []")
       (simp_all add: lsp_did_change_def update_each_hand_over)
  moreover have "\<forall>e. fst (lsp_did_change update_document params server) = Inl e \<longrightarrow>
      (\<exists>change \<in> set (contentChanges params).
         \<exists>ws. fst (update_document (change_textDocument params) change ws) = Inl e)"
  proof (intro allI impI)
    fix e
    assume "fst (lsp_did_change update_document params server) = Inl e"
    then have "fst (update_each update_document (change_textDocument params)
        (contentChanges params) (workspace server)) = Inl e"
      by (cases "contentChanges params = []")
         (auto simp: lsp_did_change_def split: prod.splits)
    then show "\<exists>change \<in> set (contentChanges params).
        \<exists>ws. fst (update_document (change_textDocument params) change ws) = Inl e"
      by (rule update_each_error_source)
  qed
  ultimately show ?thesis by blast
qed

theorem lsp_did_change_hands_over_every_entry_witness:
  "lsp_did_change (pygls_update_document full_change)
     (change_params 2 [ranged_entry, full_entry ''x = 3'']) example_open
   = (Inr (),
      example_open\<lparr>workspace :=
        [''a.py'' \<mapsto> \<lparr>doc_uri = ''a.py'', source = ''x = 3'', version = 2\<rparr>]\<rparr>) \<and>
   lsp_did_change (pygls_update_document full_change)
     (change_params 2 [ranged_entry]) example_open
   = (Inr (),
      example_open\<lparr>workspace :=
        [''a.py'' \<mapsto> \<lparr>doc_uri = ''a.py'', source = ''2'', version = 2\<rparr>]\<rparr>)"
  using lsp_did_change_hands_over_every_entry
    [of "pygls_update_document full_change" "change_params 2 [ranged_entry, full_entry ''x = 3'']"
       example_open]
    lsp_did_change_hands_over_every_entry
    [of "pygls_update_document full_change" "change_params 2 [ranged_entry]" example_open]
  by (simp add: hand_over_Inr pygls_update_document_def change_params_def ranged_entry_def
      full_entry_def full_change_def example_open_eq Let_def)

text \<open>
  On the library's workspace the outcome is decided by the uri alone: the entries of a
  tracked document are all applied, and an untracked one raises the \<open>KeyError\<close> of the dict
  lookup at the first entry.
\<close>

lemma lsp_did_change_library_outcome:
  "lsp_did_change (pygls_update_document apply_change) params server =
     (if contentChanges params = [] then (Inr (), server)
      else case workspace server (id_uri (change_textDocument params)) of
             None \<Rightarrow> (Inl KeyError, server)
           | Some doc \<Rightarrow>
               (Inr (),
                server\<lparr>workspace := (workspace server)
                  (id_uri (change_textDocument params) \<mapsto>
                     foldl (updated apply_change (change_textDocument params)) doc
                       (contentChanges params))\<rparr>))"
  by (cases "workspace server (id_uri (change_textDocument params))")
     (simp_all add: lsp_did_change_def update_each_untracked update_each_tracked)

section \<open>The version is the client's\<close>

text \<open>
  C6, as stated, fails: a document opened at version 1 receives one notification with one
  entry that carries version 3 (the protocol lets a client skip numbers). The version is
  then 3, not 1 plus the number of applied changes.
\<close>

theorem lsp_did_change_version_counterexample:
  "map_option version (workspace example_open ''a.py'') = Some 1 \<and>
   length (contentChanges (change_params 3 [full_entry ''x = 2''])) = 1 \<and>
   map_option version
     (workspace (snd (lsp_did_change (pygls_update_document full_change)
                        (change_params 3 [full_entry ''x = 2'']) example_open)) ''a.py'')
     = Some 3 \<and>
   map_option version
     (workspace (snd (lsp_did_change (pygls_update_document full_change)
                        (change_params 3 [full_entry ''x = 2'']) example_open)) ''a.py'')
     \<noteq> Some (1 + int (length (contentChanges (change_params 3 [full_entry ''x = 2'']))))"
  by (simp add: lsp_did_change_def change_params_def full_entry_def example_open_eq
      pygls_update_document_def Let_def)

text \<open>
  C6, amended. After a did-change notification with at least one entry for a tracked
  document, the notification succeeds and the document's version is the version that the
  notification's document identifier carries, whatever the number of entries and whatever
  the version was before. Nothing in the handler or in the workspace counts changes.
\<close>

theorem lsp_did_change_sets_version:
  assumes "workspace server (id_uri (change_textDocument params)) = Some doc"
    and "contentChanges params \<noteq> []"
  shows "\<exists>doc'.
           fst (lsp_did_change (pygls_update_document apply_change) params server) = Inr () \<and>
           workspace (snd (lsp_did_change (pygls_update_document apply_change) params server))
             (id_uri (change_textDocument params)) = Some doc' \<and>
           version doc' = id_version (change_textDocument params)"
proof -
  let ?td = "change_textDocument params"
  let ?doc' = "foldl (updated apply_change ?td) doc (contentChanges params)"
  have "lsp_did_change (pygls_update_document apply_change) params server =
      (Inr (), server\<lparr>workspace := (workspace server)(id_uri ?td \<mapsto> ?doc')\<rparr>)"
    using assms by (simp add: lsp_did_change_def update_each_tracked)
  moreover have "version ?doc' = id_version ?td"
    using assms(2) by (rule version_after_updates)
  ultimately show ?thesis by simp
qed

theorem lsp_did_change_sets_version_witness:
  "\<exists>doc'.
     fst (lsp_did_change (pygls_update_document full_change)
            (change_params 5 [full_entry ''x = 2'', full_entry ''x = 3'']) example_open)
       = Inr () \<and>
     workspace (snd (lsp_did_change (pygls_update_document full_change)
                       (change_params 5 [full_entry ''x = 2'', full_entry ''x = 3''])
                       example_open)) ''a.py'' = Some doc' \<and>
     version doc' = 5"
proof -
  let ?params = "change_params 5 [full_entry ''x = 2'', full_entry ''x = 3'']"
  have tracked: "workspace example_open (id_uri (change_textDocument ?params))
      = Some \<lparr>doc_uri = ''a.py'', source = ''x = 1'', version = 1\<rparr>"
    by (simp add: example_open_eq change_params_def)
  have entries: "contentChanges ?params \<noteq> []"
    by (simp add: change_params_def)
  from lsp_did_change_sets_version [OF tracked entries, of full_change]
  show ?thesis by (simp add: change_params_def)
qed

section \<open>Opening a tracked uri again\<close>

text \<open>
  C8, as stated, fails: opening a uri that is tracked already returns without an error, so
  not with \<open>DuplicateDocument\<close>.
\<close>

theorem lsp_did_open_tracked_counterexample:
  "workspace example_open (item_uri (open_textDocument example_reopen)) \<noteq> None \<and>
   fst (lsp_did_open pygls_put_document example_reopen example_open) = Inr () \<and>
   fst (lsp_did_open pygls_put_document example_reopen example_open) \<noteq> Inl DuplicateDocument"
  by (simp add: lsp_did_open_def pygls_put_document_def example_reopen_def example_open_eq
      Let_def)

text \<open>
  C8, amended. A did-open never fails, tracked uri or not. Afterwards the uri holds a new
  document made of the notification's text and version alone (nothing of an earlier
  document under that uri remains), every other uri holds what it held, and the declared
  sync kind is unchanged: the policy is overwrite on reopen.
\<close>

theorem lsp_did_open_overwrites:
  "fst (lsp_did_open pygls_put_document params server) = Inr () \<and>
   workspace (snd (lsp_did_open pygls_put_document params server))
       (item_uri (open_textDocument params))
     = Some \<lparr>doc_uri = item_uri (open_textDocument params),
             source = item_text (open_textDocument params),
             version = item_version (open_textDocument params)\<rparr> \<and>
   (\<forall>uri. uri \<noteq> item_uri (open_textDocument params) \<longrightarrow>
      workspace (snd (lsp_did_open pygls_put_document params server)) uri
        = workspace server uri) \<and>
   sync_kind (snd (lsp_did_open pygls_put_document params server)) = sync_kind server"
  by (simp add: lsp_did_open_def pygls_put_document_def Let_def)

theorem lsp_did_open_overwrites_witness:
  "workspace example_open ''a.py''
     = Some \<lparr>doc_uri = ''a.py'', source = ''x = 1'', version = 1\<rparr> \<and>
   fst (lsp_did_open pygls_put_document example_reopen example_open) = Inr () \<and>
   workspace (snd (lsp_did_open pygls_put_document example_reopen example_open)) ''a.py''
     = Some \<lparr>doc_uri = ''a.py'', source = ''y = 0'', version = 7\<rparr> \<and>
   workspace (snd (lsp_did_open pygls_put_document example_reopen example_open)) ''b.py''
     = None"
  using lsp_did_open_overwrites [of example_reopen example_open]
  by (simp add: example_reopen_def example_open_eq)

section \<open>The position translator is its own inverse\<close>

lemma line_start_walk:
  "line_start text n = Some a \<Longrightarrow>
     a \<le> length text \<and>
     foldl advance p (take a text) =
       (if n = 0 then p else \<lparr>line = line p + n, character = 0\<rparr>)"
proof (induction "text" n arbitrary: a p rule: line_start.induct)
  case (1 t)
  then show ?case by simp
next
  case (2 n)
  then show ?case by simp
next
  case (3 c cs n)
  then obtain a' where a': "line_start cs (if c = newline then n else Suc n) = Some a'"
    and a: "a = Suc a'" by auto
  from "3.IH"[OF a', of "advance p c"] a
  show ?case by (cases "c = newline"; cases n) (auto simp: advance_def)
qed

lemma column_offset_walk:
  "column_offset cs k = Some b \<Longrightarrow>
     b \<le> length cs \<and>
     foldl advance p (take b cs) = p\<lparr>character := character p + k\<rparr>"
proof (induction cs k arbitrary: b p rule: column_offset.induct)
  case (1 cs)
  then show ?case by simp
next
  case (2 k)
  then show ?case by simp
next
  case (3 c cs k)
  from "3.prems" have ok: "\<not> (c = newline \<or> Suc k < utf16_units c)"
    by (auto split: if_splits)
  with "3.prems" obtain b' where b': "column_offset cs (Suc k - utf16_units c) = Some b'"
    and b: "b = Suc b'" by auto
  from "3.IH"[OF ok b', of "advance p c"] ok b
  show ?case by (auto simp: advance_def)
qed

text \<open>
  Whatever offset \<open>toOffset\<close> produces, \<open>fromOffset\<close> takes it back to the position.
\<close>

lemma fromOffset_after_toOffset:
  assumes "toOffset text pos = Inr off"
  shows "fromOffset text off = Inr pos"
proof -
  from assms obtain a b where a: "line_start text (line pos) = Some a"
    and b: "column_offset (drop a text) (character pos) = Some b"
    and off: "off = a + b"
    by (auto simp: toOffset_def split: option.splits)
  let ?p0 = "\<lparr>line = 0, character = 0\<rparr>"
  let ?p1 = "foldl advance ?p0 (take a text)"
  from line_start_walk[OF a, of ?p0]
  have la: "a \<le> length text"
    and p1: "?p1 = (if line pos = 0 then ?p0 else \<lparr>line = line pos, character = 0\<rparr>)"
    by auto
  from column_offset_walk[OF b, of ?p1]
  have lb: "b \<le> length (drop a text)"
    and p2: "foldl advance ?p1 (take b (drop a text)) = ?p1\<lparr>character := character ?p1 + character pos\<rparr>"
    by auto
  have "take (a + b) text = take a text @ take b (drop a text)"
    by (simp add: take_add)
  then have "foldl advance ?p0 (take off text) = foldl advance ?p1 (take b (drop a text))"
    by (simp add: off)
  also have "\<dots> = pos" using p2 p1 by (cases "line pos = 0") auto
  finally show ?thesis using la lb off by (simp add: fromOffset_def)
qed

lemma lines_of_nonempty: "lines_of text \<noteq> []"
  by (induction "text") auto

lemma hd_lines_of: "hd (lines_of text) = takeWhile (\<lambda>c. c \<noteq> newline) text"
  by (induction "text") auto

lemma line_start_defined:
  "n < length (lines_of text) \<Longrightarrow>
     \<exists>a. line_start text n = Some a \<and>
         lines_of text ! n = takeWhile (\<lambda>c. c \<noteq> newline) (drop a text)"
proof (induction "text" arbitrary: n)
  case Nil
  then show ?case by simp
next
  case (Cons c cs)
  show ?case
  proof (cases n)
    case 0
    then show ?thesis using hd_lines_of[of "c # cs"] lines_of_nonempty[of "c # cs"]
      by (simp add: hd_conv_nth del: lines_of.simps)
  next
    case (Suc m)
    show ?thesis
    proof (cases "c = newline")
      case True
      with Cons.prems Suc have "m < length (lines_of cs)" by simp
      from Cons.IH[OF this] True Suc show ?thesis by auto
    next
      case False
      with Cons.prems Suc have "Suc m < length (lines_of cs)"
        using lines_of_nonempty[of cs] by (cases "lines_of cs") auto
      from Cons.IH[OF this] False Suc lines_of_nonempty[of cs]
      show ?thesis by (cases "lines_of cs") auto
    qed
  qed
qed

lemma column_offset_defined:
  "k \<in> set (boundaries (takeWhile (\<lambda>c. c \<noteq> newline) cs)) \<Longrightarrow> \<exists>b. column_offset cs k = Some b"
proof (induction cs arbitrary: k)
  case Nil
  then show ?case by simp
next
  case (Cons c cs)
  show ?case
  proof (cases k)
    case 0
    then show ?thesis by simp
  next
    case (Suc j)
    with Cons.prems have nl: "c \<noteq> newline" by (auto split: if_splits)
    with Cons.prems Suc obtain k' where
      k': "k' \<in> set (boundaries (takeWhile (\<lambda>c. c \<noteq> newline) cs))" and k: "k = k' + utf16_units c"
      by auto
    from Cons.IH[OF k'] obtain b where b: "column_offset cs k' = Some b" by blast
    from k Suc have "Suc j - utf16_units c = k'" and "\<not> Suc j < utf16_units c" by auto
    with nl b have "column_offset (c # cs) (Suc j) = Some (Suc b)" by simp
    with Suc show ?thesis by simp
  qed
qed

text \<open>\<open>toOffset\<close> is defined on the valid positions, and on no other.\<close>

lemma toOffset_defined:
  assumes "valid_position text pos"
  shows "\<exists>off. toOffset text pos = Inr off"
proof -
  from assms have l: "line pos < length (lines_of text)"
    and c: "character pos \<in> set (boundaries (lines_of text ! line pos))"
    by (auto simp: valid_position_def)
  from line_start_defined[OF l] obtain a where a: "line_start text (line pos) = Some a"
    and ln: "lines_of text ! line pos = takeWhile (\<lambda>c. c \<noteq> newline) (drop a text)" by blast
  from c ln column_offset_defined[of "character pos" "drop a text"]
  obtain b where "column_offset (drop a text) (character pos) = Some b" by auto
  with a show ?thesis by (simp add: toOffset_def)
qed

lemma line_start_valid:
  "line_start text n = Some a \<Longrightarrow>
     n < length (lines_of text) \<and>
     lines_of text ! n = takeWhile (\<lambda>c. c \<noteq> newline) (drop a text)"
proof (induction "text" n arbitrary: a rule: line_start.induct)
  case (1 t)
  then show ?case using hd_lines_of[of t] lines_of_nonempty[of t]
    by (simp add: hd_conv_nth)
next
  case (2 n)
  then show ?case by simp
next
  case (3 c cs n)
  then obtain a' where a': "line_start cs (if c = newline then n else Suc n) = Some a'"
    and a: "a = Suc a'" by auto
  from "3.IH"[OF a'] a lines_of_nonempty[of cs]
  show ?case by (cases "c = newline"; cases "lines_of cs") (auto split: if_splits)
qed

lemma column_offset_valid:
  "column_offset cs k = Some b \<Longrightarrow> k \<in> set (boundaries (takeWhile (\<lambda>c. c \<noteq> newline) cs))"
proof (induction cs k arbitrary: b rule: column_offset.induct)
  case (1 cs)
  then show ?case by (cases cs) auto
next
  case (2 k)
  then show ?case by simp
next
  case (3 c cs k)
  from "3.prems" have ok: "\<not> (c = newline \<or> Suc k < utf16_units c)"
    by (auto split: if_splits)
  with "3.prems" obtain b' where b': "column_offset cs (Suc k - utf16_units c) = Some b'"
    by auto
  from "3.IH"[OF ok b'] ok
  have "Suc k - utf16_units c \<in> set (boundaries (takeWhile (\<lambda>c. c \<noteq> newline) cs))" by simp
  moreover from ok have "Suc k = (Suc k - utf16_units c) + utf16_units c" by simp
  ultimately show ?case using ok by (auto simp: image_iff)
qed

lemma toOffset_valid:
  assumes "toOffset text pos = Inr off"
  shows "valid_position text pos"
proof -
  from assms obtain a b where a: "line_start text (line pos) = Some a"
    and b: "column_offset (drop a text) (character pos) = Some b"
    by (auto simp: toOffset_def split: option.splits)
  from line_start_valid[OF a] column_offset_valid[OF b]
  show ?thesis by (simp add: valid_position_def)
qed

lemma column_offset_step:
  "0 < k \<Longrightarrow> c \<noteq> newline \<Longrightarrow> utf16_units c \<le> k \<Longrightarrow>
     column_offset (c # cs) k = map_option Suc (column_offset cs (k - utf16_units c))"
  by (cases k) auto

text \<open>
  C5. For every text and every valid position of it, with the character counted in UTF-16
  code units and a scalar value outside the basic plane counted as two, \<open>toOffset\<close> yields
  an offset and \<open>fromOffset\<close> of that offset is the position again.
\<close>

theorem fromOffset_toOffset:
  assumes "valid_position text pos"
  shows "\<exists>off. toOffset text pos = Inr off \<and> fromOffset text off = Inr pos"
proof -
  from toOffset_defined [OF assms] obtain off where off: "toOffset text pos = Inr off" ..
  then have "fromOffset text off = Inr pos" by (rule fromOffset_after_toOffset)
  with off show ?thesis by blast
qed

theorem fromOffset_toOffset_witness:
  "valid_position example_text \<lparr>line = 0, character = 3\<rparr> \<and>
   toOffset example_text \<lparr>line = 0, character = 3\<rparr> = Inr 2 \<and>
   fromOffset example_text 2 = Inr \<lparr>line = 0, character = 3\<rparr>"
proof -
  have lines: "lines_of example_text = [[97, 128512, 98], [99]]"
    by (simp add: example_text_def newline_def)
  have valid: "valid_position example_text \<lparr>line = 0, character = 3\<rparr>"
    by (simp add: valid_position_def lines utf16_units_def)
  from fromOffset_toOffset [OF valid] obtain off
    where fwd: "toOffset example_text \<lparr>line = 0, character = 3\<rparr> = Inr off"
      and bwd: "fromOffset example_text off = Inr \<lparr>line = 0, character = 3\<rparr>"
    by blast
  have "toOffset example_text \<lparr>line = 0, character = 3\<rparr> = Inr 2"
    by (simp add: toOffset_def example_text_def column_offset_step newline_def utf16_units_def)
  with fwd have "off = 2" by simp
  with valid fwd bwd show ?thesis by simp
qed

end
